theory Spec2Isabelle
  imports Main
begin

section \<open>Records, the object store and collections\<close>

text \<open>
  The module keeps records as JavaScript objects that are shared by reference: the
  \<open>records\<close> array and the \<open>uuidMap\<close> of a collection hold references to the same
  objects, \<open>Collection.remove\<close> mutates the object it is given, and \<open>Collection.add\<close>
  writes a generated uuid into the incoming object. The model therefore has an explicit
  object store (\<open>heap\<close>) from references to object contents.

  A record object is modelled with the three properties the module itself reads and
  writes (\<open>uuid\<close>, \<open>updated\<close>, \<open>removed\<close>; \<open>None\<close> is an absent property) and the list
  of all its other own properties (name, fields, tags, ...) in insertion order.

  The property \<open>updated\<close> holds what the code puts there: a \<open>Date\<close> object
  (\<open>new Date()\<close> in \<open>Collection.save\<close> and \<open>Collection.remove\<close>), given by its time
  value in milliseconds, or a string, which is what \<open>JSON.parse\<close> returns for a stored
  date (no reviver is used). A string in \<open>updated\<close> is a date string as
  \<open>JSON.stringify\<close> writes it (ISO 8601); such a string is not a numeric literal.
\<close>

type_synonym ref = nat
type_synonym timestamp = int

datatype attr = Text string | Fields "(string \<times> string \<times> bool) list" | Tags "string list"

datatype stamp = Date timestamp | Str string

record recobj =
  uuid :: "string option"
  updated :: "stamp option"
  removed :: "bool option"
  attrs :: "(string \<times> attr) list"

text \<open>
  The world outside a collection: the object store, the next unused reference (objects
  created by \<open>JSON.parse\<close>), and how many uuids \<open>util.uuid()\<close> has produced so far.
  \<open>util.uuid\<close> is not part of the module; it is a parameter \<open>gen\<close> of the model, the
  \<open>n\<close>-th call returning \<open>gen n\<close>.
\<close>

record world =
  heap :: "ref \<Rightarrow> recobj"
  next_ref :: ref
  uuid_count :: nat

text \<open>\<open>var Store = function(defaultSource) {...}\<close>; \<open>None\<close> is the \<open>null\<close> password.\<close>

record store =
  defaultSource :: nat
  password :: "string option"

text \<open>
  \<open>var Collection = function(name, store) {...}\<close>. The store of a collection is kept
  inside the collection; \<open>uuidMap\<close> is the object \<open>{}\<close> used as a dictionary from uuid to
  record, given here by its own properties.
\<close>

record collection =
  name :: string
  store :: store
  records :: "ref list"
  uuidMap :: "string \<rightharpoonup> ref"

definition new_Store :: "nat \<Rightarrow> store" where
  "new_Store src = \<lparr>defaultSource = src, password = Some []\<rparr>"

definition new_Collection :: "string \<Rightarrow> store \<Rightarrow> collection" where
  "new_Collection nm st =
     \<lparr>name = (if nm = [] then ''default'' else nm), store = st, records = [], uuidMap = Map.empty\<rparr>"

subsection \<open>Collection.add\<close>

text \<open>Exceptions that the module's code can raise or pass on.\<close>

datatype exn = TypeError | DecryptError | SyntaxError

text \<open>\<open>r.uuid || ...\<close>: an absent uuid and the empty string are falsy.\<close>

definition truthy_str :: "string option \<Rightarrow> bool" where
  "truthy_str s = (case s of None \<Rightarrow> False | Some x \<Rightarrow> x \<noteq> [])"

text \<open>\<open>r.uuid = r.uuid || util.uuid();\<close>\<close>

definition ensure_uuid :: "(nat \<Rightarrow> string) \<Rightarrow> world \<Rightarrow> ref \<Rightarrow> world" where
  "ensure_uuid gen w r =
     (if truthy_str (uuid (heap w r)) then w
      else w\<lparr>heap := (heap w)(r := (heap w r)\<lparr>uuid := Some (gen (uuid_count w))\<rparr>),
             uuid_count := Suc (uuid_count w)\<rparr>)"

text \<open>The property key under which \<open>this.uuidMap[r.uuid]\<close> is read and written.\<close>

definition key_of :: "string option \<Rightarrow> string" where
  "key_of u = (case u of None \<Rightarrow> ''undefined'' | Some s \<Rightarrow> s)"

text \<open>
  Reading \<open>this.uuidMap[k]\<close>. The map is a plain object, so a key that is not an own
  property is looked up in \<open>Object.prototype\<close>: for the names below the result is a
  function (for \<open>__proto__\<close> the prototype object), which is truthy and has no
  \<open>updated\<close> property. For any other key the result is \<open>undefined\<close>.
\<close>

definition object_prototype_keys :: "string list" where
  "object_prototype_keys =
     [''constructor'', ''toString'', ''toLocaleString'', ''valueOf'', ''hasOwnProperty'',
      ''isPrototypeOf'', ''propertyIsEnumerable'', ''__proto__'', ''__defineGetter__'',
      ''__defineSetter__'', ''__lookupGetter__'', ''__lookupSetter__'']"

datatype lookup = Absent | Inherited | Own ref

definition uuidMap_get :: "(string \<rightharpoonup> ref) \<Rightarrow> string \<Rightarrow> lookup" where
  "uuidMap_get um k =
     (case um k of
        Some r \<Rightarrow> Own r
      | None \<Rightarrow> if k \<in> set object_prototype_keys then Inherited else Absent)"

text \<open>
  \<open>a < b\<close> on two strings: the first code unit in which they differ decides, and a
  proper prefix is smaller.
\<close>

fun string_less :: "string \<Rightarrow> string \<Rightarrow> bool" where
  "string_less [] [] = False"
| "string_less [] (y # ys) = True"
| "string_less (x # xs) [] = False"
| "string_less (x # xs) (y # ys) =
     (if x = y then string_less xs ys else (of_char x :: nat) < of_char y)"

text \<open>The truthiness of \<open>r.updated\<close>: a \<open>Date\<close> object is truthy, the empty string is not.\<close>

definition truthy_stamp :: "stamp option \<Rightarrow> bool" where
  "truthy_stamp v = (case v of None \<Rightarrow> False | Some (Date t) \<Rightarrow> True | Some (Str s) \<Rightarrow> s \<noteq> [])"

text \<open>
  \<open>a > b\<close> on what two \<open>updated\<close> properties hold. Two \<open>Date\<close> objects are compared
  by their time values and two strings as strings. In every other case both sides are
  converted to numbers, and the comparison is false because one of them is \<open>NaN\<close>: an
  absent property is \<open>undefined\<close>, and a date string is not a numeric literal.
\<close>

fun js_greater :: "stamp option \<Rightarrow> stamp option \<Rightarrow> bool" where
  "js_greater (Some (Date t)) (Some (Date t')) = (t' < t)"
| "js_greater (Some (Str s)) (Some (Str s')) = string_less s' s"
| "js_greater a b = False"

text \<open>\<open>r.updated && r.updated > existing.updated\<close>\<close>

definition more_recent :: "recobj \<Rightarrow> recobj \<Rightarrow> bool" where
  "more_recent r e = (truthy_stamp (updated r) \<and> js_greater (updated r) (updated e))"

text \<open>\<open>records.indexOf(existing)\<close>; \<open>None\<close> is the result \<open>-1\<close>.\<close>

fun indexOf :: "ref list \<Rightarrow> ref \<Rightarrow> nat option" where
  "indexOf [] x = None"
| "indexOf (y # ys) x = (if y = x then Some 0 else map_option Suc (indexOf ys x))"

text \<open>
  \<open>records[i] = r\<close>. With \<open>i = -1\<close> the assignment creates a property named \<open>-1\<close> on
  the array and changes neither its elements nor its length.
\<close>

definition assign_at :: "ref list \<Rightarrow> nat option \<Rightarrow> ref \<Rightarrow> ref list" where
  "assign_at xs i r = (case i of None \<Rightarrow> xs | Some k \<Rightarrow> xs[k := r])"

text \<open>
  The body of the \<open>forEach\<close> callback, for one incoming record object \<open>r\<close>. Its state is
  the world, \<open>this.uuidMap\<close> (written at once) and the local copy \<open>records\<close>. When
  \<open>existing\<close> is an inherited member, \<open>existing.updated\<close> is \<open>undefined\<close>, so the first
  condition is false, and \<open>!existing\<close> is false as well: neither branch runs.
\<close>

type_synonym add_state = "world \<times> (string \<rightharpoonup> ref) \<times> ref list"

definition add_each :: "(nat \<Rightarrow> string) \<Rightarrow> add_state \<Rightarrow> ref \<Rightarrow> add_state" where
  "add_each gen st r =
     (case st of (w, um, recs) \<Rightarrow>
        let w1 = ensure_uuid gen w r;
            k = key_of (uuid (heap w1 r))
        in (case uuidMap_get um k of
              Own existing \<Rightarrow>
                if more_recent (heap w1 r) (heap w1 existing)
                then (w1, um(k \<mapsto> r), assign_at recs (indexOf recs existing) r)
                else (w1, um, recs)
            | Inherited \<Rightarrow> (w1, um, recs)
            | Absent \<Rightarrow> (w1, um(k \<mapsto> r), recs @ [r])))"

text \<open>
  \<open>rec.forEach(...)\<close>. An element that is \<open>null\<close> (here \<open>None\<close>) makes \<open>r.uuid\<close> raise a
  TypeError, which ends the loop; what was written before stays written.
\<close>

fun add_loop :: "(nat \<Rightarrow> string) \<Rightarrow> add_state \<Rightarrow> ref option list \<Rightarrow> add_state \<times> exn option" where
  "add_loop gen st [] = (st, None)"
| "add_loop gen st (None # rs) = (st, Some TypeError)"
| "add_loop gen st (Some r # rs) = add_loop gen (add_each gen st r) rs"

text \<open>\<open>rec = util.isArray(rec) ? rec : [rec];\<close>\<close>

datatype recarg = Single "ref option" | Array "ref option list"

fun as_array :: "recarg \<Rightarrow> ref option list" where
  "as_array (Single r) = [r]"
| "as_array (Array rs) = rs"

text \<open>
  \<open>Collection.add\<close>. The result is the state after the call and the exception, if one was
  raised. \<open>this.records = records\<close> is reached only when the loop has ended normally.
\<close>

definition Collection_add ::
  "(nat \<Rightarrow> string) \<Rightarrow> world \<times> collection \<Rightarrow> recarg \<Rightarrow> (world \<times> collection) \<times> exn option" where
  "Collection_add gen wc rec =
     (case wc of (w, c) \<Rightarrow>
        (case add_loop gen (w, uuidMap c, records c) (as_array rec) of
           ((w', um', recs'), None) \<Rightarrow> ((w', c\<lparr>records := recs', uuidMap := um'\<rparr>), None)
         | ((w', um', recs'), Some e) \<Rightarrow> ((w', c\<lparr>uuidMap := um'\<rparr>), Some e)))"

subsection \<open>Collection.remove and Collection.lock\<close>

text \<open>
  \<open>Collection.remove\<close>: the loop deletes every own property except \<open>uuid\<close>; then
  \<open>updated\<close> and \<open>removed\<close> are set. \<open>now\<close> is the value of \<open>new Date()\<close>. The
  collection itself is not touched by the code.
\<close>

definition delete_props :: "recobj \<Rightarrow> recobj" where
  "delete_props obj = obj\<lparr>updated := None, removed := None, attrs := []\<rparr>"

definition Collection_remove :: "timestamp \<Rightarrow> world \<times> collection \<Rightarrow> ref \<Rightarrow> world \<times> collection" where
  "Collection_remove now wc rec =
     (case wc of (w, c) \<Rightarrow>
        (w\<lparr>heap := (heap w)(rec := (delete_props (heap w rec))\<lparr>updated := Some (Date now), removed := Some True\<rparr>)\<rparr>,
         c))"

text \<open>\<open>Collection.lock\<close>: \<open>this.records = []; this.store.password = null;\<close>\<close>

definition Collection_lock :: "collection \<Rightarrow> collection" where
  "Collection_lock c = c\<lparr>records := [], store := (store c)\<lparr>password := None\<rparr>\<rparr>"

text \<open>The names of the own properties of a record object.\<close>

definition own_props :: "recobj \<Rightarrow> string set" where
  "own_props obj =
     (if uuid obj = None then {} else {''uuid''}) \<union>
     (if updated obj = None then {} else {''updated''}) \<union>
     (if removed obj = None then {} else {''removed''}) \<union>
     fst ` set (attrs obj)"

section \<open>Sources, the codec and the store\<close>

text \<open>
  Modelled from the spec: the Source objects (\<open>source.fetch\<close>, \<open>source.save\<close>) are
  collaborators whose code is not part of the module. Following the Source contract, a
  source is a key/value table that may be unreachable: reading an absent key fails with
  \<open>NotFound\<close>, any access to an unreachable source fails with \<open>Unavailable\<close>, and a
  write is atomic. Sources are named by numbers; \<open>oplog\<close> records every request that is
  issued to a source, in order.
\<close>

datatype source_error = NotFound | Unavailable

record 'b source =
  contents :: "string \<rightharpoonup> 'b"
  reachable :: bool

datatype source_op = OpFetch nat string | OpSave nat string

record 'b io =
  sources :: "nat \<Rightarrow> 'b source"
  oplog :: "source_op list"

definition source_fetch :: "'b io \<Rightarrow> nat \<Rightarrow> string \<Rightarrow> 'b io \<times> (source_error + 'b)" where
  "source_fetch io s key =
     (io\<lparr>oplog := oplog io @ [OpFetch s key]\<rparr>,
      if \<not> reachable (sources io s) then Inl Unavailable
      else (case contents (sources io s) key of None \<Rightarrow> Inl NotFound | Some d \<Rightarrow> Inr d))"

definition source_save :: "'b io \<Rightarrow> nat \<Rightarrow> string \<Rightarrow> 'b \<Rightarrow> 'b io \<times> (source_error + unit)" where
  "source_save io s key d =
     (if \<not> reachable (sources io s) then (io\<lparr>oplog := oplog io @ [OpSave s key]\<rparr>, Inl Unavailable)
      else (io\<lparr>sources := (sources io)(s := (sources io s)\<lparr>contents := (contents (sources io s))(key \<mapsto> d)\<rparr>),
               oplog := oplog io @ [OpSave s key]\<rparr>, Inr ()))"

text \<open>
  \<open>JSON.stringify\<close> and \<open>JSON.parse\<close>, on the texts that concern the module. A record
  object is written with its own properties; a \<open>Date\<close> is written as the string that its
  \<open>toISOString\<close> gives, and a string as itself. What is read back is an array whose
  elements are record objects or \<open>null\<close>, or a single record object, and a date comes
  back as the string that was written. A text that is not JSON makes \<open>JSON.parse\<close> throw.
\<close>

record jsonrec =
  j_uuid :: "string option"
  j_updated :: "string option"
  j_removed :: "bool option"
  j_attrs :: "(string \<times> attr) list"

datatype json = JArray "jsonrec option list" | JObject jsonrec

datatype plaintext = JsonText json | OtherText string

definition written_stamp :: "(timestamp \<Rightarrow> string) \<Rightarrow> stamp \<Rightarrow> string" where
  "written_stamp fmt v = (case v of Date t \<Rightarrow> fmt t | Str s \<Rightarrow> s)"

definition to_json :: "(timestamp \<Rightarrow> string) \<Rightarrow> recobj \<Rightarrow> jsonrec" where
  "to_json fmt obj =
     \<lparr>j_uuid = uuid obj, j_updated = map_option (written_stamp fmt) (updated obj),
      j_removed = removed obj, j_attrs = attrs obj\<rparr>"

definition from_json :: "jsonrec \<Rightarrow> recobj" where
  "from_json j =
     \<lparr>uuid = j_uuid j, updated = map_option Str (j_updated j),
      removed = j_removed j, attrs = j_attrs j\<rparr>"

definition JSON_stringify :: "(timestamp \<Rightarrow> string) \<Rightarrow> recobj list \<Rightarrow> plaintext" where
  "JSON_stringify fmt objs = JsonText (JArray (map (\<lambda>obj. Some (to_json fmt obj)) objs))"

fun JSON_parse :: "plaintext \<Rightarrow> json option" where
  "JSON_parse (JsonText j) = Some j"
| "JSON_parse (OtherText s) = None"

text \<open>
  The functions of other modules that the store calls are parameters of the model:
  \<open>util.uuid\<close>, \<open>Date.prototype.toISOString\<close>, \<open>crypto.pwdEncrypt\<close> and
  \<open>crypto.pwdDecrypt\<close> (\<open>None\<close>: it throws). \<open>'b\<close> is the type of encrypted blobs.
\<close>

record 'b env =
  uuid_gen :: "nat \<Rightarrow> string"
  toISOString :: "timestamp \<Rightarrow> string"
  pwdEncrypt :: "string option \<Rightarrow> plaintext \<Rightarrow> 'b"
  pwdDecrypt :: "string option \<Rightarrow> 'b \<Rightarrow> plaintext option"

text \<open>What a \<open>fail\<close> callback receives: the failure of a source, or a caught exception.\<close>

datatype failure = SourceFailure source_error | Thrown exn

record fetch_opts =
  opt_password :: "string option"
  opt_source :: "nat option"

definition getKey :: "collection \<Rightarrow> string" where
  "getKey coll = ''coll_'' @ name coll"

text \<open>\<open>opts.source || this.defaultSource\<close>\<close>

definition resolve_source :: "store \<Rightarrow> nat option \<Rightarrow> nat" where
  "resolve_source st s = (case s of Some x \<Rightarrow> x | None \<Rightarrow> defaultSource st)"

text \<open>\<open>opts.password !== undefined && opts.password !== null ? opts.password : this.password\<close>\<close>

definition resolve_password :: "store \<Rightarrow> string option \<Rightarrow> string option" where
  "resolve_password st p = (case p of Some x \<Rightarrow> Some x | None \<Rightarrow> password st)"

text \<open>The objects that \<open>JSON.parse\<close> creates are new objects in the store.\<close>

fun alloc :: "world \<Rightarrow> jsonrec option list \<Rightarrow> world \<times> ref option list" where
  "alloc w [] = (w, [])"
| "alloc w (None # vs) = (case alloc w vs of (w', rs) \<Rightarrow> (w', None # rs))"
| "alloc w (Some v # vs) =
     (case alloc (w\<lparr>heap := (heap w)(next_ref w := from_json v), next_ref := Suc (next_ref w)\<rparr>) vs of
        (w', rs) \<Rightarrow> (w', Some (next_ref w) # rs))"

fun materialize :: "world \<Rightarrow> json \<Rightarrow> world \<times> recarg" where
  "materialize w (JArray vs) = (case alloc w vs of (w', rs) \<Rightarrow> (w', Array rs))"
| "materialize w (JObject v) =
     (w\<lparr>heap := (heap w)(next_ref w := from_json v), next_ref := Suc (next_ref w)\<rparr>,
      Single (Some (next_ref w)))"

text \<open>
  \<open>Store.fetch\<close>, first the part that runs when the call is made: the password is
  resolved and remembered on the store (\<open>this.password = password\<close>) while the request
  to the source is under way.
\<close>

definition fetch_begin :: "collection \<Rightarrow> fetch_opts \<Rightarrow> collection" where
  "fetch_begin c opts =
     c\<lparr>store := (store c)\<lparr>password := resolve_password (store c) (opt_password opts)\<rparr>\<rparr>"

text \<open>
  The \<open>success\<close> callback that \<open>Store.fetch\<close> hands to the source: the \<open>try\<close> block
  decrypts, parses and adds; whatever is thrown goes to \<open>opts.fail\<close>.
\<close>

definition fetch_callback ::
  "'b env \<Rightarrow> string option \<Rightarrow> world \<times> collection \<Rightarrow> 'b \<Rightarrow> (world \<times> collection) \<times> (failure + unit)" where
  "fetch_callback env pw wc data =
     (case wc of (w, c) \<Rightarrow>
        (case pwdDecrypt env pw data of
           None \<Rightarrow> ((w, c), Inl (Thrown DecryptError))
         | Some pt \<Rightarrow>
             (case JSON_parse pt of
                None \<Rightarrow> ((w, c), Inl (Thrown SyntaxError))
              | Some j \<Rightarrow>
                  (case materialize w j of (w1, rec) \<Rightarrow>
                     (case Collection_add (uuid_gen env) (w1, c) rec of
                        (wc', None) \<Rightarrow> (wc', Inr ())
                      | (wc', Some e) \<Rightarrow> (wc', Inl (Thrown e)))))))"

text \<open>
  \<open>Store.fetch\<close>: the state is the world, the sources and the collection with its
  store; the result tells which callback is called, \<open>Inr ()\<close> for \<open>opts.success\<close> and
  \<open>Inl e\<close> for \<open>opts.fail(e)\<close>. A failure of the source goes to the same \<open>opts.fail\<close>.
\<close>

type_synonym 'b state = "world \<times> 'b io \<times> collection"

definition Store_fetch ::
  "'b env \<Rightarrow> 'b state \<Rightarrow> fetch_opts \<Rightarrow> 'b state \<times> (failure + unit)" where
  "Store_fetch env st opts =
     (case st of (w, io, c) \<Rightarrow>
        let source = resolve_source (store c) (opt_source opts);
            pw = resolve_password (store c) (opt_password opts);
            key = getKey c;
            c1 = fetch_begin c opts
        in (case source_fetch io source key of
              (io', Inl e) \<Rightarrow> ((w, io', c1), Inl (SourceFailure e))
            | (io', Inr data) \<Rightarrow>
                (case fetch_callback env pw (w, c1) data of
                   ((w', c'), out) \<Rightarrow> ((w', io', c'), out))))"

text \<open>\<open>Store.save\<close>: stringify the records, encrypt with \<open>this.password\<close>, hand to the source.\<close>

definition Store_save ::
  "'b env \<Rightarrow> 'b state \<Rightarrow> nat option \<Rightarrow> 'b state \<times> (failure + unit)" where
  "Store_save env st src =
     (case st of (w, io, c) \<Rightarrow>
        let source = resolve_source (store c) src;
            pt = JSON_stringify (toISOString env) (map (heap w) (records c));
            ct = pwdEncrypt env (password (store c)) pt
        in (case source_save io source (getKey c) ct of
              (io', Inl e) \<Rightarrow> ((w, io', c), Inl (SourceFailure e))
            | (io', Inr u) \<Rightarrow> ((w, io', c), Inr ())))"

text \<open>
  \<open>Collection.fetch\<close> and \<open>Collection.save\<close> pass the call on to the store. The model
  of \<open>Collection.save\<close> is the call without \<open>opts.record\<close>, as \<open>sync\<close> makes it.
\<close>

definition Collection_fetch ::
  "'b env \<Rightarrow> 'b state \<Rightarrow> fetch_opts \<Rightarrow> 'b state \<times> (failure + unit)" where
  "Collection_fetch env st opts = Store_fetch env st opts"

definition Collection_save ::
  "'b env \<Rightarrow> 'b state \<Rightarrow> nat option \<Rightarrow> 'b state \<times> (failure + unit)" where
  "Collection_save env st src = Store_save env st src"

text \<open>
  \<open>Collection.sync\<close>: each step runs in the \<open>success\<close> callback of the step before, and
  all three steps share the caller's \<open>fail\<close> callback.
\<close>

definition Collection_sync ::
  "'b env \<Rightarrow> 'b state \<Rightarrow> nat \<Rightarrow> 'b state \<times> (failure + unit)" where
  "Collection_sync env st source =
     (case Collection_fetch env st \<lparr>opt_password = None, opt_source = Some source\<rparr> of
        (st1, Inl e) \<Rightarrow> (st1, Inl e)
      | (st1, Inr u) \<Rightarrow>
          (case Collection_save env st1 None of
             (st2, Inl e) \<Rightarrow> (st2, Inl e)
           | (st2, Inr u) \<Rightarrow> Collection_save env st2 (Some source)))"

section \<open>Consistency of a collection\<close>

text \<open>
  The data-model invariant, split into its parts. They are stated for an object store, a
  uuid index and a record sequence, so that they can also be used inside the loop of
  \<open>Collection.add\<close>, where the sequence is the local copy.
\<close>

text \<open>No two records of the sequence carry the same uuid.\<close>

definition one_per_uuid :: "world \<Rightarrow> ref list \<Rightarrow> bool" where
  "one_per_uuid w recs = distinct (map (\<lambda>r. uuid (heap w r)) recs)"

text \<open>Every record of the sequence is found in the index under its uuid.\<close>

definition records_indexed :: "world \<Rightarrow> (string \<rightharpoonup> ref) \<Rightarrow> ref list \<Rightarrow> bool" where
  "records_indexed w um recs = (\<forall>r\<in>set recs. um (key_of (uuid (heap w r))) = Some r)"

text \<open>Every index entry is filed under the (non-empty) uuid that its record carries.\<close>

definition index_keys_match :: "world \<Rightarrow> (string \<rightharpoonup> ref) \<Rightarrow> bool" where
  "index_keys_match w um = (\<forall>k r. um k = Some r \<longrightarrow> uuid (heap w r) = Some k \<and> k \<noteq> [])"

text \<open>Every index entry points to a record that is present in the sequence.\<close>

definition index_in_records :: "(string \<rightharpoonup> ref) \<Rightarrow> ref list \<Rightarrow> bool" where
  "index_in_records um recs = (\<forall>k r. um k = Some r \<longrightarrow> r \<in> set recs)"

definition well_indexed :: "world \<Rightarrow> (string \<rightharpoonup> ref) \<Rightarrow> ref list \<Rightarrow> bool" where
  "well_indexed w um recs = (one_per_uuid w recs \<and> records_indexed w um recs \<and> index_keys_match w um)"

definition consistent :: "world \<Rightarrow> collection \<Rightarrow> bool" where
  "consistent w c = (well_indexed w (uuidMap c) (records c) \<and> index_in_records (uuidMap c) (records c))"

text \<open>No own entry of the index is filed under a name that every object inherits.\<close>

definition no_inherited_keys :: "(string \<rightharpoonup> ref) \<Rightarrow> bool" where
  "no_inherited_keys um = (\<forall>k\<in>set object_prototype_keys. um k = None)"

text \<open>Every record of the sequence carries a uuid, and none that is an inherited name.\<close>

definition uuids_plain :: "world \<Rightarrow> ref list \<Rightarrow> bool" where
  "uuids_plain w recs =
     (\<forall>r\<in>set recs. truthy_str (uuid (heap w r)) \<and>
                     key_of (uuid (heap w r)) \<notin> set object_prototype_keys)"


section \<open>Example states\<close>

text \<open>
  The string that \<open>Date.prototype.toISOString\<close> gives for a time value: the civil date
  of the day number, then the time of day, in UTC.
\<close>

definition digit_char :: "int \<Rightarrow> char" where
  "digit_char n = ''0123456789'' ! nat (n mod 10)"

definition digits2 :: "int \<Rightarrow> string" where
  "digits2 n = [digit_char (n div 10), digit_char n]"

definition digits3 :: "int \<Rightarrow> string" where
  "digits3 n = digit_char (n div 100) # digits2 n"

definition digits4 :: "int \<Rightarrow> string" where
  "digits4 n = digit_char (n div 1000) # digits3 n"

definition year_string :: "int \<Rightarrow> string" where
  "year_string y =
     (if 0 \<le> y \<and> y \<le> 9999 then digits4 y
      else (if y < 0 then ''-'' else ''+'') @ digits2 (\<bar>y\<bar> div 10000) @ digits4 \<bar>y\<bar>)"

definition civil_from_days :: "int \<Rightarrow> int \<times> int \<times> int" where
  "civil_from_days z =
     (let z1 = z + 719468;
          era = z1 div 146097;
          doe = z1 - era * 146097;
          yoe = (doe - doe div 1460 + doe div 36524 - doe div 146096) div 365;
          doy = doe - (365 * yoe + yoe div 4 - yoe div 100);
          mp = (5 * doy + 2) div 153;
          d = doy - (153 * mp + 2) div 5 + 1;
          m = (if mp < 10 then mp + 3 else mp - 9);
          y = yoe + era * 400 + (if m \<le> 2 then 1 else 0)
      in (y, m, d))"

definition iso_string :: "timestamp \<Rightarrow> string" where
  "iso_string t =
     (let ms = t mod 86400000
      in (case civil_from_days (t div 86400000) of (y, m, d) \<Rightarrow>
            year_string y @ ''-'' @ digits2 m @ ''-'' @ digits2 d @ ''T'' @
            digits2 (ms div 3600000) @ '':'' @ digits2 (ms div 60000 mod 60) @ '':'' @
            digits2 (ms div 1000 mod 60) @ ''.'' @ digits3 (ms mod 1000) @ ''Z''))"

text \<open>
  A small world used to run the operations. Records \<open>0\<close> to \<open>3\<close> and \<open>5\<close> are versions
  of the record with uuid \<open>a\<close>: \<open>0\<close>, \<open>1\<close> and \<open>2\<close> stamped locally at the instants 10, 20
  and 5, \<open>3\<close> without a timestamp, and \<open>5\<close> as a fetch delivers the version of instant
  20. Record \<open>6\<close> has the uuid \<open>constructor\<close>. The collection holds record \<open>0\<close>.
\<close>

definition example_gen :: "nat \<Rightarrow> string" where
  "example_gen n = replicate (Suc n) CHR ''u''"

definition blank :: recobj where
  "blank = \<lparr>uuid = None, updated = None, removed = None, attrs = []\<rparr>"

definition example_heap :: "ref \<Rightarrow> recobj" where
  "example_heap =
     (\<lambda>r. blank)
       (0 := \<lparr>uuid = Some ''a'', updated = Some (Date 10), removed = None, attrs = [(''name'', Text ''mail'')]\<rparr>,
        1 := \<lparr>uuid = Some ''a'', updated = Some (Date 20), removed = None, attrs = [(''name'', Text ''webmail'')]\<rparr>,
        2 := \<lparr>uuid = Some ''a'', updated = Some (Date 5), removed = Some False, attrs = [(''name'', Text ''old mail'')]\<rparr>,
        3 := \<lparr>uuid = Some ''a'', updated = None, removed = None, attrs = [(''name'', Text ''undated'')]\<rparr>,
        4 := \<lparr>uuid = Some ''b'', updated = Some (Date 7), removed = None, attrs = [(''name'', Text ''bank'')]\<rparr>,
        5 := \<lparr>uuid = Some ''a'', updated = Some (Str ''1970-01-01T00:00:00.020Z''), removed = None,
               attrs = [(''name'', Text ''webmail'')]\<rparr>,
        6 := \<lparr>uuid = Some ''constructor'', updated = Some (Date 7), removed = None,
               attrs = [(''name'', Text ''build server'')]\<rparr>)"

definition example_world :: world where
  "example_world = \<lparr>heap = example_heap, next_ref = 8, uuid_count = 0\<rparr>"

definition example_coll :: collection where
  "example_coll = \<lparr>name = ''default'', store = \<lparr>defaultSource = 0, password = Some ''pw''\<rparr>,
                    records = [0], uuidMap = [''a'' \<mapsto> 0]\<rparr>"

text \<open>
  A codec that keeps the password next to the plaintext and rejects every other
  password, and two reachable, empty sources.
\<close>

type_synonym example_blob = "string option \<times> plaintext"

definition example_env :: "example_blob env" where
  "example_env =
     \<lparr>uuid_gen = example_gen,
      toISOString = iso_string,
      pwdEncrypt = (\<lambda>p x. (p, x)),
      pwdDecrypt = (\<lambda>p b. if fst b = p then Some (snd b) else None)\<rparr>"

definition example_io :: "example_blob io" where
  "example_io = \<lparr>sources = (\<lambda>s. \<lparr>contents = Map.empty, reachable = True\<rparr>), oplog = []\<rparr>"

text \<open>The same sources, the remote one (source 1) holding a saved collection with record 4.\<close>

definition example_remote :: "example_blob io" where
  "example_remote =
     example_io\<lparr>sources := (sources example_io)
        (1 := \<lparr>contents = [''coll_default'' \<mapsto>
                  (Some ''pw'', JSON_stringify iso_string [example_heap 4])],
               reachable = True\<rparr>)\<rparr>"

text \<open>
  Stored data for the example collection, encrypted with its password, whose text is the
  array of record \<open>4\<close> and \<open>null\<close>.
\<close>

definition example_damaged :: "example_blob io" where
  "example_damaged =
     example_io\<lparr>sources := (sources example_io)
        (0 := \<lparr>contents = [''coll_default'' \<mapsto>
                  (Some ''pw'', JsonText (JArray [Some (to_json iso_string (example_heap 4)), None]))],
               reachable = True\<rparr>)\<rparr>"

section \<open>Auxiliary facts\<close>

lemmas example_defs = example_world_def example_coll_def example_heap_def example_env_def example_io_def
  example_remote_def

lemmas run_defs = Collection_sync_def Collection_fetch_def Collection_save_def Store_fetch_def
  Store_save_def source_fetch_def source_save_def fetch_callback_def fetch_begin_def getKey_def
  resolve_source_def resolve_password_def Collection_add_def add_each_def ensure_uuid_def
  truthy_str_def key_of_def more_recent_def truthy_stamp_def assign_at_def uuidMap_get_def
  object_prototype_keys_def JSON_stringify_def to_json_def from_json_def written_stamp_def Let_def


lemma iso_string_7: "iso_string 7 = ''1970-01-01T00:00:00.007Z''"
  by code_simp

lemma iso_string_20: "iso_string 20 = ''1970-01-01T00:00:00.020Z''"
  by code_simp

subsection \<open>Searching and reading\<close>

lemma indexOf_mem: "x \<in> set xs \<Longrightarrow> \<exists>i. indexOf xs x = Some i \<and> i < length xs \<and> xs ! i = x"
  by (induction xs) auto

lemma indexOf_notin: "x \<notin> set xs \<Longrightarrow> indexOf xs x = None"
  by (induction xs) auto

subsection \<open>Adding and removing keep a collection consistent\<close>

lemma well_indexed_key:
  assumes "well_indexed w um recs" "r \<in> set recs"
  shows "\<exists>k. uuid (heap w r) = Some k \<and> k \<noteq> [] \<and> um k = Some r"
proof -
  from assms have a: "um (key_of (uuid (heap w r))) = Some r"
    by (simp add: well_indexed_def records_indexed_def)
  with assms(1) have "uuid (heap w r) = Some (key_of (uuid (heap w r))) \<and> key_of (uuid (heap w r)) \<noteq> []"
    unfolding well_indexed_def index_keys_match_def by blast
  with a show ?thesis by blast
qed

lemma well_indexed_distinct: "well_indexed w um recs \<Longrightarrow> distinct recs"
  by (simp add: well_indexed_def one_per_uuid_def distinct_map)

lemma well_indexed_truthy:
  assumes "well_indexed w um recs" "r \<in> set recs"
  shows "truthy_str (uuid (heap w r))"
proof -
  from assms have a: "um (key_of (uuid (heap w r))) = Some r"
    by (simp add: well_indexed_def records_indexed_def)
  with assms(1) have "uuid (heap w r) = Some (key_of (uuid (heap w r))) \<and> key_of (uuid (heap w r)) \<noteq> []"
    unfolding well_indexed_def index_keys_match_def by blast
  then show ?thesis by (auto simp: truthy_str_def split: option.splits)
qed

lemma ensure_uuid_heap_other:
  "truthy_str (uuid (heap w r')) \<Longrightarrow> heap (ensure_uuid gen w r) r' = heap w r'"
  by (auto simp: ensure_uuid_def)

lemma ensure_uuid_result:
  assumes "\<forall>n. gen n \<noteq> []"
  shows "\<exists>u. uuid (heap (ensure_uuid gen w r) r) = Some u \<and> u \<noteq> []"
  using assms by (auto simp: ensure_uuid_def truthy_str_def split: option.splits)

lemma ensure_uuid_well_indexed:
  assumes "well_indexed w um recs"
  shows "well_indexed (ensure_uuid gen w r) um recs"
proof -
  have recs: "\<And>x. x \<in> set recs \<Longrightarrow> heap (ensure_uuid gen w r) x = heap w x"
    using well_indexed_truthy [OF assms] ensure_uuid_heap_other by blast
  have idx: "\<And>k x. um k = Some x \<Longrightarrow> heap (ensure_uuid gen w r) x = heap w x"
  proof -
    fix k x assume "um k = Some x"
    with assms have "uuid (heap w x) = Some k \<and> k \<noteq> []"
      unfolding well_indexed_def index_keys_match_def by blast
    then have "truthy_str (uuid (heap w x))" by (simp add: truthy_str_def)
    then show "heap (ensure_uuid gen w r) x = heap w x" by (rule ensure_uuid_heap_other)
  qed
  have m: "map (\<lambda>x. uuid (heap (ensure_uuid gen w r) x)) recs = map (\<lambda>x. uuid (heap w x)) recs"
    by (rule map_cong) (simp_all add: recs)
  from assms have "distinct (map (\<lambda>x. uuid (heap w x)) recs)"
    by (simp add: well_indexed_def one_per_uuid_def)
  then have 1: "one_per_uuid (ensure_uuid gen w r) recs"
    unfolding one_per_uuid_def m .
  have 2: "records_indexed (ensure_uuid gen w r) um recs"
    using assms recs by (simp add: well_indexed_def records_indexed_def)
  have 3: "index_keys_match (ensure_uuid gen w r) um"
    using assms idx unfolding well_indexed_def index_keys_match_def by simp
  from 1 2 3 show ?thesis by (simp add: well_indexed_def)
qed

lemma append_well_indexed:
  assumes wi: "well_indexed w um recs" and u: "uuid (heap w r) = Some u" "u \<noteq> []"
    and none: "um u = None"
  shows "well_indexed w (um(u \<mapsto> r)) (recs @ [r])"
proof -
  have fresh: "\<And>x. x \<in> set recs \<Longrightarrow> uuid (heap w x) \<noteq> Some u"
  proof
    fix x assume "x \<in> set recs" "uuid (heap w x) = Some u"
    with well_indexed_key [OF wi] have "um u = Some x" by fastforce
    with none show False by simp
  qed
  have "Some u \<notin> set (map (\<lambda>x. uuid (heap w x)) recs)"
  proof
    assume "Some u \<in> set (map (\<lambda>x. uuid (heap w x)) recs)"
    then obtain x where "x \<in> set recs" "uuid (heap w x) = Some u" by (auto simp: image_iff)
    with fresh show False by blast
  qed
  moreover have "distinct (map (\<lambda>x. uuid (heap w x)) recs)"
    using wi by (simp add: well_indexed_def one_per_uuid_def)
  ultimately have 1: "one_per_uuid w (recs @ [r])"
    by (simp add: one_per_uuid_def u)
  have 2: "records_indexed w (um(u \<mapsto> r)) (recs @ [r])"
    unfolding records_indexed_def
  proof
    fix x assume "x \<in> set (recs @ [r])"
    then consider "x = r" | "x \<in> set recs" by auto
    then show "(um(u \<mapsto> r)) (key_of (uuid (heap w x))) = Some x"
    proof cases
      case 1
      then show ?thesis by (simp add: u key_of_def)
    next
      case 2
      then obtain k where k: "uuid (heap w x) = Some k" "um k = Some x"
        using well_indexed_key [OF wi] by blast
      with fresh [OF 2] show ?thesis by (simp add: key_of_def)
    qed
  qed
  have 3: "index_keys_match w (um(u \<mapsto> r))"
    using wi u by (auto simp: well_indexed_def index_keys_match_def)
  from 1 2 3 show ?thesis by (simp add: well_indexed_def)
qed

lemma replace_well_indexed:
  assumes wi: "well_indexed w um recs" and u: "uuid (heap w r) = Some u" "u \<noteq> []"
    and e: "um u = Some e" and ne: "r \<noteq> e"
  shows "well_indexed w (um(u \<mapsto> r)) (assign_at recs (indexOf recs e) r)"
proof -
  have ue: "uuid (heap w e) = Some u"
    using wi e unfolding well_indexed_def index_keys_match_def by blast
  have only: "\<And>x. x \<in> set recs \<Longrightarrow> uuid (heap w x) = Some u \<Longrightarrow> x = e"
  proof -
    fix x assume "x \<in> set recs" "uuid (heap w x) = Some u"
    with well_indexed_key [OF wi] have "um u = Some x" by fastforce
    with e show "x = e" by simp
  qed
  have 3: "index_keys_match w (um(u \<mapsto> r))"
    using wi u by (auto simp: well_indexed_def index_keys_match_def)
  show ?thesis
  proof (cases "e \<in> set recs")
    case False
    then have eq: "assign_at recs (indexOf recs e) r = recs"
      by (simp add: indexOf_notin assign_at_def)
    have 2: "records_indexed w (um(u \<mapsto> r)) recs"
      unfolding records_indexed_def
    proof
      fix x assume x: "x \<in> set recs"
      then obtain k where k: "uuid (heap w x) = Some k" "um k = Some x"
        using well_indexed_key [OF wi] by blast
      with only [OF x] False x have "k \<noteq> u" by auto
      with k show "(um(u \<mapsto> r)) (key_of (uuid (heap w x))) = Some x"
        by (simp add: key_of_def)
    qed
    from wi 2 3 show ?thesis by (simp add: eq well_indexed_def)
  next
    case True
    then obtain i where i: "indexOf recs e = Some i" "i < length recs" "recs ! i = e"
      using indexOf_mem by blast
    have eq: "assign_at recs (indexOf recs e) r = recs[i := r]"
      by (simp add: i assign_at_def)
    have dist: "distinct recs" using wi by (rule well_indexed_distinct)
    have "map (\<lambda>x. uuid (heap w x)) (recs[i := r]) = (map (\<lambda>x. uuid (heap w x)) recs)[i := Some u]"
      by (simp add: map_update u)
    also have "\<dots> = map (\<lambda>x. uuid (heap w x)) recs"
      using i ue by (metis list_update_id nth_map)
    finally have 1: "one_per_uuid w (recs[i := r])"
      using wi by (simp add: well_indexed_def one_per_uuid_def)
    have others: "\<And>x. x \<in> set (recs[i := r]) \<Longrightarrow> x \<noteq> r \<Longrightarrow> x \<in> set recs \<and> x \<noteq> e"
    proof -
      fix x assume x: "x \<in> set (recs[i := r])" "x \<noteq> r"
      then obtain j where j: "j < length recs" "(recs[i := r]) ! j = x"
        by (auto simp: in_set_conv_nth)
      with x have "j \<noteq> i" using i by auto
      with j have "recs ! j = x" by simp
      with j \<open>j \<noteq> i\<close> i dist show "x \<in> set recs \<and> x \<noteq> e"
        by (auto simp: nth_eq_iff_index_eq)
    qed
    have 2: "records_indexed w (um(u \<mapsto> r)) (recs[i := r])"
      unfolding records_indexed_def
    proof
      fix x assume x: "x \<in> set (recs[i := r])"
      show "(um(u \<mapsto> r)) (key_of (uuid (heap w x))) = Some x"
      proof (cases "x = r")
        case True
        then show ?thesis by (simp add: u key_of_def)
      next
        case False
        with x others have xr: "x \<in> set recs" "x \<noteq> e" by auto
        with only have "uuid (heap w x) \<noteq> Some u" by blast
        moreover obtain k where k: "uuid (heap w x) = Some k" "um k = Some x"
          using well_indexed_key [OF wi xr(1)] by blast
        ultimately show ?thesis by (simp add: key_of_def)
      qed
    qed
    from 1 2 3 show ?thesis by (simp add: eq well_indexed_def)
  qed
qed

lemma string_less_irrefl: "\<not> string_less s s"
  by (induction s) simp_all

lemma js_greater_irrefl: "\<not> js_greater v v"
proof (cases v)
  case None
  then show ?thesis by simp
next
  case (Some x)
  then show ?thesis by (cases x) (simp_all add: string_less_irrefl)
qed

lemma more_recent_irrefl: "\<not> more_recent x x"
  by (simp add: more_recent_def js_greater_irrefl)

lemma add_each_well_indexed:
  assumes gen: "\<forall>n. gen n \<noteq> []" and wi: "well_indexed w um recs"
    and step: "add_each gen (w, um, recs) r = (w', um', recs')"
  shows "well_indexed w' um' recs'"
proof -
  let ?w = "ensure_uuid gen w r"
  obtain u where u: "uuid (heap ?w r) = Some u" "u \<noteq> []"
    using ensure_uuid_result [OF gen] by blast
  have wi1: "well_indexed ?w um recs" using wi by (rule ensure_uuid_well_indexed)
  show ?thesis
  proof (cases "uuidMap_get um u")
    case Absent
    then have none: "um u = None" by (simp add: uuidMap_get_def split: option.splits)
    from step u Absent have "w' = ?w" "um' = um(u \<mapsto> r)" "recs' = recs @ [r]"
      by (auto simp: add_each_def key_of_def Let_def)
    with append_well_indexed [OF wi1 u none] show ?thesis by simp
  next
    case Inherited
    with step u have "w' = ?w" "um' = um" "recs' = recs"
      by (auto simp: add_each_def key_of_def Let_def)
    with wi1 show ?thesis by simp
  next
    case (Own e)
    then have some: "um u = Some e" by (simp add: uuidMap_get_def split: option.splits if_splits)
    show ?thesis
    proof (cases "more_recent (heap ?w r) (heap ?w e)")
      case True
      then have "r \<noteq> e" using more_recent_irrefl by auto
      moreover from step u Own True
      have "w' = ?w" "um' = um(u \<mapsto> r)" "recs' = assign_at recs (indexOf recs e) r"
        by (auto simp: add_each_def key_of_def Let_def)
      ultimately show ?thesis using replace_well_indexed [OF wi1 u some] by simp
    next
      case False
      with step u Own have "w' = ?w" "um' = um" "recs' = recs"
        by (auto simp: add_each_def key_of_def Let_def)
      with wi1 show ?thesis by simp
    qed
  qed
qed

lemma add_each_index_in_records:
  assumes wi: "well_indexed w um recs" and ir: "index_in_records um recs"
    and step: "add_each gen (w, um, recs) r = (w', um', recs')"
  shows "index_in_records um' recs'"
proof -
  let ?w = "ensure_uuid gen w r"
  let ?k = "key_of (uuid (heap ?w r))"
  show ?thesis
  proof (cases "uuidMap_get um ?k")
    case Absent
    with step have "um' = um(?k \<mapsto> r)" "recs' = recs @ [r]"
      by (auto simp: add_each_def Let_def)
    with ir show ?thesis by (auto simp: index_in_records_def)
  next
    case Inherited
    with step have "um' = um" "recs' = recs"
      by (auto simp: add_each_def Let_def)
    with ir show ?thesis by simp
  next
    case (Own e)
    then have Some: "um ?k = Some e" by (simp add: uuidMap_get_def split: option.splits if_splits)
    show ?thesis
    proof (cases "more_recent (heap ?w r) (heap ?w e)")
      case False
      with step Own have "um' = um" "recs' = recs"
        by (auto simp: add_each_def Let_def)
      with ir show ?thesis by simp
    next
      case True
      with step Own have eq: "um' = um(?k \<mapsto> r)" "recs' = assign_at recs (indexOf recs e) r"
        by (auto simp: add_each_def Let_def)
      from ir Some have "e \<in> set recs" by (auto simp: index_in_records_def)
      then obtain i where i: "indexOf recs e = Some i" "i < length recs" "recs ! i = e"
        using indexOf_mem by blast
      have dist: "distinct recs" using wi by (rule well_indexed_distinct)
      have recs': "recs' = recs[i := r]" using eq i by (simp add: assign_at_def)
      have keep: "\<And>x. x \<in> set recs \<Longrightarrow> x \<noteq> e \<Longrightarrow> x \<in> set (recs[i := r])"
      proof -
        fix x assume "x \<in> set recs" "x \<noteq> e"
        then obtain j where "j < length recs" "recs ! j = x" "j \<noteq> i"
          using i by (auto simp: in_set_conv_nth)
        then have "(recs[i := r]) ! j = x" "j < length (recs[i := r])" by auto
        then show "x \<in> set (recs[i := r])" by (metis nth_mem)
      qed
      show ?thesis
        unfolding index_in_records_def
      proof (intro allI impI)
        fix k x assume kx: "um' k = Some x"
        show "x \<in> set recs'"
        proof (cases "k = ?k")
          case True
          with kx eq have "x = r" by simp
          then show ?thesis using i recs' by (simp add: set_update_memI)
        next
          case False
          with kx eq have umk: "um k = Some x" by simp
          with ir have "x \<in> set recs" by (auto simp: index_in_records_def)
          moreover have "x \<noteq> e"
          proof
            assume "x = e"
            from wi umk Some have "uuid (heap w x) = Some k" "uuid (heap w e) = Some ?k"
              unfolding well_indexed_def index_keys_match_def by blast+
            with \<open>x = e\<close> False show False by simp
          qed
          ultimately show ?thesis using keep recs' by simp
        qed
      qed
    qed
  qed
qed

lemma add_loop_well_indexed:
  assumes "\<forall>n. gen n \<noteq> []"
  shows "well_indexed w um recs \<Longrightarrow> add_loop gen (w, um, recs) rs = ((w', um', recs'), x)
         \<Longrightarrow> well_indexed w' um' recs'"
proof (induction rs arbitrary: w um recs)
  case Nil
  then show ?case by simp
next
  case (Cons a rs)
  show ?case
  proof (cases a)
    case None
    with Cons.prems show ?thesis by simp
  next
    case (Some r)
    obtain w1 um1 recs1 where s: "add_each gen (w, um, recs) r = (w1, um1, recs1)"
      by (cases "add_each gen (w, um, recs) r") auto
    have "well_indexed w1 um1 recs1"
      using add_each_well_indexed [OF assms Cons.prems(1) s] .
    moreover have "add_loop gen (w1, um1, recs1) rs = ((w', um', recs'), x)"
      using Cons.prems(2) Some s by simp
    ultimately show ?thesis by (rule Cons.IH)
  qed
qed

lemma add_loop_index_in_records:
  assumes "\<forall>n. gen n \<noteq> []"
  shows "well_indexed w um recs \<Longrightarrow> index_in_records um recs
         \<Longrightarrow> add_loop gen (w, um, recs) rs = ((w', um', recs'), x)
         \<Longrightarrow> index_in_records um' recs'"
proof (induction rs arbitrary: w um recs)
  case Nil
  then show ?case by simp
next
  case (Cons a rs)
  show ?case
  proof (cases a)
    case None
    with Cons.prems show ?thesis by simp
  next
    case (Some r)
    obtain w1 um1 recs1 where s: "add_each gen (w, um, recs) r = (w1, um1, recs1)"
      by (cases "add_each gen (w, um, recs) r") auto
    have "well_indexed w1 um1 recs1"
      using add_each_well_indexed [OF assms Cons.prems(1) s] .
    moreover have "index_in_records um1 recs1"
      using add_each_index_in_records [OF Cons.prems(1,2) s] .
    moreover have "add_loop gen (w1, um1, recs1) rs = ((w', um', recs'), x)"
      using Cons.prems(3) Some s by simp
    ultimately show ?thesis by (rule Cons.IH)
  qed
qed

lemma Collection_add_consistent:
  assumes gen: "\<forall>n. gen n \<noteq> []" and c: "consistent w c"
    and add: "Collection_add gen (w, c) rec = ((w', c'), None)"
  shows "consistent w' c'"
proof -
  obtain w1 um1 recs1 x where l: "add_loop gen (w, uuidMap c, records c) (as_array rec) = ((w1, um1, recs1), x)"
    by (metis prod_cases3 surj_pair)
  with add have x: "x = None" and eq: "w' = w1" "c' = c\<lparr>records := recs1, uuidMap := um1\<rparr>"
    by (auto simp: Collection_add_def split: option.splits)
  from c have "well_indexed w (uuidMap c) (records c)" "index_in_records (uuidMap c) (records c)"
    by (simp_all add: consistent_def)
  with l have "well_indexed w1 um1 recs1" "index_in_records um1 recs1"
    using add_loop_well_indexed [OF gen] add_loop_index_in_records [OF gen] by blast+
  with eq show ?thesis by (simp add: consistent_def)
qed

lemma Collection_remove_uuid:
  "uuid (heap (fst (Collection_remove now (w, c) r)) x) = uuid (heap w x)"
  by (simp add: Collection_remove_def delete_props_def)

lemma Collection_remove_consistent:
  assumes "consistent w c"
  shows "consistent (fst (Collection_remove now (w, c) r)) (snd (Collection_remove now (w, c) r))"
proof -
  have s: "snd (Collection_remove now (w, c) r) = c" by (simp add: Collection_remove_def)
  show ?thesis
    using assms unfolding s consistent_def well_indexed_def one_per_uuid_def records_indexed_def
      index_keys_match_def Collection_remove_uuid by simp
qed

lemma Collection_lock_well_indexed:
  "well_indexed w (uuidMap c) (records c) \<Longrightarrow>
   well_indexed w (uuidMap (Collection_lock c)) (records (Collection_lock c))"
  by (simp add: Collection_lock_def well_indexed_def one_per_uuid_def records_indexed_def)

lemma consistent_lookup:
  assumes "consistent w c"
  shows "uuidMap c u = Some e \<longleftrightarrow> e \<in> set (records c) \<and> uuid (heap w e) = Some u"
proof
  assume "uuidMap c u = Some e"
  with assms show "e \<in> set (records c) \<and> uuid (heap w e) = Some u"
    unfolding consistent_def well_indexed_def index_keys_match_def index_in_records_def by blast
next
  assume "e \<in> set (records c) \<and> uuid (heap w e) = Some u"
  with assms show "uuidMap c u = Some e"
    using well_indexed_key [of w "uuidMap c" "records c" e] by (auto simp: consistent_def)
qed

lemma Collection_add_well_indexed:
  assumes gen: "\<forall>n. gen n \<noteq> []" and wi: "well_indexed w (uuidMap c) (records c)"
    and add: "Collection_add gen (w, c) rec = ((w', c'), None)"
  shows "well_indexed w' (uuidMap c') (records c')"
proof -
  obtain w1 um1 recs1 x where l: "add_loop gen (w, uuidMap c, records c) (as_array rec) = ((w1, um1, recs1), x)"
    by (metis prod_cases3 surj_pair)
  with add have eq: "w' = w1" "c' = c\<lparr>records := recs1, uuidMap := um1\<rparr>"
    by (auto simp: Collection_add_def split: option.splits)
  from add_loop_well_indexed [OF gen wi l] eq show ?thesis by simp
qed

lemma new_Collection_consistent: "consistent w (new_Collection nm st)"
  by (simp add: new_Collection_def consistent_def well_indexed_def one_per_uuid_def
      records_indexed_def index_keys_match_def index_in_records_def)

lemma well_indexed_records:
  assumes "well_indexed w (uuidMap c) (records c)"
  shows "(\<forall>r\<in>set (records c). truthy_str (uuid (heap w r))) \<and> one_per_uuid w (records c)"
  using assms well_indexed_truthy [OF assms] by (simp add: well_indexed_def)

subsection \<open>One incoming record\<close>

lemma add_single: "Collection_add gen (w, c) (Single (Some r)) =
   (case add_each gen (w, uuidMap c, records c) r of
      (w', um', recs') \<Rightarrow> ((w', c\<lparr>records := recs', uuidMap := um'\<rparr>), None))"
  by (simp add: Collection_add_def split: prod.splits)

lemma add_loop_foldl: "add_loop gen st (map Some rs) = (foldl (add_each gen) st rs, None)"
  by (induction rs arbitrary: st) simp_all

lemma add_each_known:
  assumes "uuid (heap w r) = Some u" "u \<noteq> []"
  shows "add_each gen (w, um, recs) r =
     (case uuidMap_get um u of
        Own existing \<Rightarrow>
          if more_recent (heap w r) (heap w existing)
          then (w, um(u \<mapsto> r), assign_at recs (indexOf recs existing) r)
          else (w, um, recs)
      | Inherited \<Rightarrow> (w, um, recs)
      | Absent \<Rightarrow> (w, um(u \<mapsto> r), recs @ [r]))"
  using assms by (simp add: add_each_def ensure_uuid_def truthy_str_def key_of_def)

subsection \<open>The store of a collection during a fetch\<close>

lemma Collection_add_store:
  "Collection_add gen (w, c) rec = ((w', c'), x) \<Longrightarrow> store c' = store c \<and> name c' = name c"
  by (auto simp: Collection_add_def split: prod.splits option.splits)

lemma fetch_callback_store:
  "fetch_callback env pw (w, c) data = ((w', c'), out) \<Longrightarrow> store c' = store c \<and> name c' = name c"
  by (auto simp: fetch_callback_def split: option.splits prod.splits dest: Collection_add_store)

lemma Store_fetch_store:
  assumes "Store_fetch env (w, io, c) opts = ((w', io', c'), out)"
  shows "store c' = store (fetch_begin c opts) \<and> name c' = name c"
proof (cases "snd (source_fetch io (resolve_source (store c) (opt_source opts)) (getKey c))")
  case (Inl e)
  with assms show ?thesis
    by (auto simp: Store_fetch_def Let_def fetch_begin_def split: prod.splits sum.splits)
next
  case (Inr data)
  with assms have
    "fetch_callback env (resolve_password (store c) (opt_password opts)) (w, fetch_begin c opts) data = ((w', c'), out)"
    by (auto simp: Store_fetch_def Let_def split: prod.splits sum.splits)
  then have "store c' = store (fetch_begin c opts) \<and> name c' = name (fetch_begin c opts)"
    by (rule fetch_callback_store)
  then show ?thesis by (simp add: fetch_begin_def)
qed

subsection \<open>Parsed records and source requests\<close>

lemma alloc_heap_kept:
  "alloc w vs = (w', rs) \<Longrightarrow> x < next_ref w \<Longrightarrow> heap w' x = heap w x"
proof (induction w vs arbitrary: w' rs rule: alloc.induct)
  case (1 w)
  then show ?case by simp
next
  case (2 w vs)
  then show ?case by (auto split: prod.splits)
next
  case (3 w v vs)
  let ?w1 = "w\<lparr>heap := (heap w)(next_ref w := from_json v), next_ref := Suc (next_ref w)\<rparr>"
  obtain w2 rs2 where a: "alloc ?w1 vs = (w2, rs2)" by (cases "alloc ?w1 vs")
  with "3.prems" have "w' = w2" by simp
  moreover have "heap w2 x = heap ?w1 x" using "3.IH" [OF a] "3.prems"(2) by simp
  ultimately show ?case using "3.prems"(2) by simp
qed

lemma materialize_heap_kept:
  "materialize w j = (w', rec) \<Longrightarrow> x < next_ref w \<Longrightarrow> heap w' x = heap w x"
  by (cases j) (auto split: prod.splits dest: alloc_heap_kept)



subsection \<open>A fetch keeps a collection consistent\<close>

lemma consistent_heap_eq:
  assumes "consistent w c" and "\<forall>r\<in>set (records c). heap w' r = heap w r"
  shows "consistent w' c"
proof -
  have m: "map (\<lambda>r. uuid (heap w' r)) (records c) = map (\<lambda>r. uuid (heap w r)) (records c)"
    by (rule map_cong) (simp_all add: assms(2))
  have 1: "one_per_uuid w' (records c)"
    using assms(1) unfolding consistent_def well_indexed_def one_per_uuid_def m by simp
  have 2: "records_indexed w' (uuidMap c) (records c)"
    using assms unfolding consistent_def well_indexed_def records_indexed_def by simp
  have 3: "index_keys_match w' (uuidMap c)"
    using assms unfolding consistent_def well_indexed_def index_keys_match_def index_in_records_def
    by metis
  from 1 2 3 assms(1) show ?thesis by (simp add: consistent_def well_indexed_def)
qed

lemma Store_fetch_consistent:
  assumes gen: "\<forall>n. uuid_gen env n \<noteq> []" and c: "consistent w c"
    and below: "\<forall>r\<in>set (records c). r < next_ref w"
    and f: "Store_fetch env (w, io, c) opts = ((w', io', c'), Inr ())"
  shows "consistent w' c'"
proof -
  let ?c1 = "fetch_begin c opts"
  have c1: "consistent w ?c1" using c by (simp add: consistent_def fetch_begin_def)
  have r1: "records ?c1 = records c" by (simp add: fetch_begin_def)
  from f obtain j w1 rec where
    m: "materialize w j = (w1, rec)" and
    a: "Collection_add (uuid_gen env) (w1, ?c1) rec = ((w', c'), None)"
    by (auto simp: Store_fetch_def Let_def fetch_callback_def split: prod.splits sum.splits option.splits)
  have "\<forall>r\<in>set (records ?c1). heap w1 r = heap w r"
    using materialize_heap_kept [OF m] below r1 by simp
  with c1 have "consistent w1 ?c1" by (rule consistent_heap_eq)
  with gen a show ?thesis using Collection_add_consistent by blast
qed

subsection \<open>Inherited names never enter the index\<close>

lemma add_each_no_inherited:
  assumes "no_inherited_keys um" and "add_each gen (w, um, recs) r = (w', um', recs')"
  shows "no_inherited_keys um'"
proof -
  let ?k = "key_of (uuid (heap (ensure_uuid gen w r) r))"
  show ?thesis
  proof (cases "uuidMap_get um ?k")
    case Absent
    then have "?k \<notin> set object_prototype_keys"
      by (simp add: uuidMap_get_def split: option.splits if_splits)
    moreover from assms(2) Absent have "um' = um(?k \<mapsto> r)" by (auto simp: add_each_def Let_def)
    ultimately show ?thesis using assms(1) by (auto simp: no_inherited_keys_def)
  next
    case Inherited
    with assms(2) have "um' = um" by (auto simp: add_each_def Let_def)
    with assms(1) show ?thesis by simp
  next
    case (Own e)
    then have "um ?k = Some e" by (simp add: uuidMap_get_def split: option.splits if_splits)
    with assms(1) have "?k \<notin> set object_prototype_keys" by (auto simp: no_inherited_keys_def)
    moreover from assms(2) Own have "um' = um(?k \<mapsto> r) \<or> um' = um"
      by (auto simp: add_each_def Let_def split: if_splits)
    ultimately show ?thesis using assms(1) by (auto simp: no_inherited_keys_def)
  qed
qed

lemma add_loop_no_inherited:
  "no_inherited_keys um \<Longrightarrow> add_loop gen (w, um, recs) rs = ((w', um', recs'), x)
   \<Longrightarrow> no_inherited_keys um'"
proof (induction rs arbitrary: w um recs)
  case Nil
  then show ?case by simp
next
  case (Cons a rs)
  show ?case
  proof (cases a)
    case None
    with Cons.prems show ?thesis by simp
  next
    case (Some r)
    obtain w1 um1 recs1 where s: "add_each gen (w, um, recs) r = (w1, um1, recs1)"
      by (cases "add_each gen (w, um, recs) r") auto
    have "no_inherited_keys um1" using add_each_no_inherited [OF Cons.prems(1) s] .
    moreover have "add_loop gen (w1, um1, recs1) rs = ((w', um', recs'), x)"
      using Cons.prems(2) Some s by simp
    ultimately show ?thesis by (rule Cons.IH)
  qed
qed

lemma Collection_add_no_inherited:
  assumes "no_inherited_keys (uuidMap c)" and "Collection_add gen (w, c) rec = ((w', c'), x)"
  shows "no_inherited_keys (uuidMap c')"
proof -
  obtain w1 um1 recs1 y where l: "add_loop gen (w, uuidMap c, records c) (as_array rec) = ((w1, um1, recs1), y)"
    by (metis prod_cases3 surj_pair)
  with assms(2) have "uuidMap c' = um1" by (auto simp: Collection_add_def split: option.splits)
  with add_loop_no_inherited [OF assms(1) l] show ?thesis by simp
qed

lemma new_Collection_no_inherited: "no_inherited_keys (uuidMap (new_Collection nm st))"
  by (simp add: new_Collection_def no_inherited_keys_def)

lemma built_collection_records:
  assumes wi: "well_indexed w (uuidMap c) (records c)" and ni: "no_inherited_keys (uuidMap c)"
  shows "uuids_plain w (records c) \<and> one_per_uuid w (records c)"
proof -
  have "\<forall>r\<in>set (records c). key_of (uuid (heap w r)) \<notin> set object_prototype_keys"
  proof
    fix r assume "r \<in> set (records c)"
    with wi have "uuidMap c (key_of (uuid (heap w r))) = Some r"
      by (simp add: well_indexed_def records_indexed_def)
    with ni show "key_of (uuid (heap w r)) \<notin> set object_prototype_keys"
      by (auto simp: no_inherited_keys_def)
  qed
  with well_indexed_truthy [OF wi] wi show ?thesis
    by (simp add: uuids_plain_def well_indexed_def)
qed


subsection \<open>The steps of a sync\<close>

lemma sync_fetch_failure:
  "Collection_fetch env st \<lparr>opt_password = None, opt_source = Some remote\<rparr> = (st1, Inl e)
   \<Longrightarrow> Collection_sync env st remote = (st1, Inl e)"
  by (simp add: Collection_sync_def)

lemma sync_local_save_failure:
  "Collection_fetch env st \<lparr>opt_password = None, opt_source = Some remote\<rparr> = (st1, Inr u)
   \<Longrightarrow> Collection_save env st1 None = (st2, Inl e)
   \<Longrightarrow> Collection_sync env st remote = (st2, Inl e)"
  by (simp add: Collection_sync_def)

lemma sync_remote_save:
  "Collection_fetch env st \<lparr>opt_password = None, opt_source = Some remote\<rparr> = (st1, Inr u)
   \<Longrightarrow> Collection_save env st1 None = (st2, Inr u')
   \<Longrightarrow> Collection_sync env st remote = Collection_save env st2 (Some remote)"
  by (simp add: Collection_sync_def)

subsection \<open>Merging two dated versions\<close>

lemma add_merges_dates:
  assumes "uuid (heap w r) = Some u" and "u \<noteq> []"
  shows "(\<forall>e t t'. uuidMap c u = Some e \<and> e \<in> set (records c) \<and>
            updated (heap w r) = Some (Date t) \<and> updated (heap w e) = Some (Date t') \<and> t' < t \<longrightarrow>
            (\<exists>i<length (records c). records c ! i = e \<and>
               Collection_add gen (w, c) (Single (Some r)) =
                 ((w, c\<lparr>records := (records c)[i := r], uuidMap := (uuidMap c)(u \<mapsto> r)\<rparr>), None)))
       \<and> (\<forall>e t t'. uuidMap c u = Some e \<and>
            updated (heap w r) = Some (Date t) \<and> updated (heap w e) = Some (Date t') \<and> t \<le> t' \<longrightarrow>
            Collection_add gen (w, c) (Single (Some r)) = ((w, c), None))
       \<and> (uuidMap_get (uuidMap c) u = Absent \<longrightarrow>
            Collection_add gen (w, c) (Single (Some r)) =
              ((w, c\<lparr>records := records c @ [r], uuidMap := (uuidMap c)(u \<mapsto> r)\<rparr>), None))"
proof (intro conjI allI impI)
  fix e t t'
  assume h: "uuidMap c u = Some e \<and> e \<in> set (records c) \<and>
            updated (heap w r) = Some (Date t) \<and> updated (heap w e) = Some (Date t') \<and> t' < t"
  then obtain i where i: "indexOf (records c) e = Some i" "i < length (records c)" "records c ! i = e"
    using indexOf_mem by blast
  have "Collection_add gen (w, c) (Single (Some r)) =
          ((w, c\<lparr>records := (records c)[i := r], uuidMap := (uuidMap c)(u \<mapsto> r)\<rparr>), None)"
    using h i by (simp add: add_single add_each_known [OF assms] more_recent_def truthy_stamp_def
        uuidMap_get_def assign_at_def)
  with i show "\<exists>i<length (records c). records c ! i = e \<and>
               Collection_add gen (w, c) (Single (Some r)) =
                 ((w, c\<lparr>records := (records c)[i := r], uuidMap := (uuidMap c)(u \<mapsto> r)\<rparr>), None)"
    by blast
next
  fix e t t'
  assume "uuidMap c u = Some e \<and>
            updated (heap w r) = Some (Date t) \<and> updated (heap w e) = Some (Date t') \<and> t \<le> t'"
  then show "Collection_add gen (w, c) (Single (Some r)) = ((w, c), None)"
    by (simp add: add_single add_each_known [OF assms] more_recent_def uuidMap_get_def)
next
  assume "uuidMap_get (uuidMap c) u = Absent"
  then show "Collection_add gen (w, c) (Single (Some r)) =
              ((w, c\<lparr>records := records c @ [r], uuidMap := (uuidMap c)(u \<mapsto> r)\<rparr>), None)"
    by (simp add: add_single add_each_known [OF assms])
qed

section \<open>Merging by uuid\<close>

text \<open>
  C1 at two inputs where the code departs from it. The example collection holds record
  \<open>0\<close> (uuid \<open>a\<close>), stamped with a \<open>Date\<close> at instant 10. Record \<open>5\<close> is the version of
  instant 20 as a fetch delivers it, its \<open>updated\<close> being the string that
  \<open>JSON.parse\<close> returns. It is strictly later, yet adding it changes nothing: the older
  record stays. Record \<open>6\<close> has the uuid \<open>constructor\<close>, under which the collection has
  no record, yet adding it changes nothing either: it is neither appended nor indexed.
  (For two \<open>Date\<close> stamps and a uuid that is no inherited name the code does what the
  claim says: \<open>add_merges_dates\<close>.)
\<close>

theorem add_drops_later_fetched_version:
  "updated (heap example_world 0) = Some (Date 10)
   \<and> updated (heap example_world 5) = Some (Str (iso_string 20))
   \<and> Collection_add example_gen (example_world, example_coll) (Single (Some 5)) =
        ((example_world, example_coll), None)
   \<and> uuid (heap example_world 6) = Some ''constructor''
   \<and> uuidMap example_coll ''constructor'' = None
   \<and> Collection_add example_gen (example_world, example_coll) (Single (Some 6)) =
        ((example_world, example_coll), None)"
  by (simp add: iso_string_20 run_defs example_defs)

text \<open>
  C9. An incoming record object that has no \<open>updated\<close> timestamp, and whose uuid the
  collection already has in its index, is discarded: the call changes nothing, whatever
  the timestamp of the existing record is (absent, older or newer).
\<close>

theorem add_without_timestamp_discarded:
  assumes "uuid (heap w r) = Some u" and "u \<noteq> []"
    and "updated (heap w r) = None"
    and "uuidMap c u = Some e"
  shows "Collection_add gen (w, c) (Single (Some r)) = ((w, c), None)"
  using assms(3,4)
  by (simp add: add_single add_each_known [OF assms(1,2)] more_recent_def truthy_stamp_def
      uuidMap_get_def)

theorem add_without_timestamp_discarded_witness:
  "uuid (heap example_world 3) = Some ''a'' \<and> updated (heap example_world 3) = None
   \<and> uuidMap example_coll ''a'' = Some 0
   \<and> Collection_add example_gen (example_world, example_coll) (Single (Some 3)) =
        ((example_world, example_coll), None)"
  using add_without_timestamp_discarded [of example_world 3 "''a''" example_coll 0 example_gen]
  by (simp add: example_defs)

section \<open>Tombstones\<close>

text \<open>
  C6. \<open>Collection.remove\<close> changes the record object it is given in place: afterwards
  the object has its uuid as before, \<open>updated\<close> is the current time, \<open>removed\<close> is
  true, and it has no other own property. The collection, and so its record sequence, is
  as it was: the record is not taken out of the sequence.
\<close>

theorem remove_makes_tombstone:
  "heap (fst (Collection_remove now (w, c) r)) r =
     \<lparr>uuid = uuid (heap w r), updated = Some (Date now), removed = Some True, attrs = []\<rparr>
   \<and> own_props (heap (fst (Collection_remove now (w, c) r)) r) \<subseteq> {''uuid'', ''updated'', ''removed''}
   \<and> snd (Collection_remove now (w, c) r) = c"
  by (simp add: Collection_remove_def delete_props_def own_props_def)

text \<open>
  C5. Record \<open>r\<close> of the collection, with uuid \<open>u\<close>, is removed at time \<open>now\<close>. Adding
  another object \<open>r'\<close> with the same uuid and an earlier \<open>updated\<close> timestamp (a copy of
  the record made before the removal, whatever its \<open>removed\<close> flag) changes nothing: the
  collection and the object store are as they were after the removal, and the object
  stored for \<open>u\<close> is still the tombstone. The copy may hold its timestamp as a \<open>Date\<close>,
  which then is earlier than \<open>now\<close>, or as a date string.
\<close>

theorem tombstone_not_restored:
  assumes "r \<in> set (records c)" and "uuidMap c u = Some r"
    and "uuid (heap w r) = Some u" and "u \<noteq> []"
    and "r' \<noteq> r" and "uuid (heap w r') = Some u"
    and "\<forall>t. updated (heap w r') = Some (Date t) \<longrightarrow> t < now"
  shows "Collection_add gen (Collection_remove now (w, c) r) (Single (Some r')) =
           (Collection_remove now (w, c) r, None)
         \<and> snd (Collection_remove now (w, c) r) = c
         \<and> heap (fst (Collection_remove now (w, c) r)) r =
             \<lparr>uuid = Some u, updated = Some (Date now), removed = Some True, attrs = []\<rparr>"
proof -
  let ?w = "w\<lparr>heap := (heap w)(r := (delete_props (heap w r))\<lparr>updated := Some (Date now), removed := Some True\<rparr>)\<rparr>"
  have rm: "Collection_remove now (w, c) r = (?w, c)" by (simp add: Collection_remove_def)
  have u': "uuid (heap ?w r') = Some u" using assms(5,6) by simp
  have "\<not> js_greater (updated (heap w r')) (Some (Date now))"
  proof (cases "updated (heap w r')")
    case None
    then show ?thesis by simp
  next
    case (Some v)
    with assms(7) show ?thesis by (cases v) auto
  qed
  then have "\<not> more_recent (heap ?w r') (heap ?w r)"
    using assms(5) by (simp add: more_recent_def)
  then have "add_each gen (?w, uuidMap c, records c) r' = (?w, uuidMap c, records c)"
    using assms(2) by (simp add: add_each_known [OF u' assms(4)] uuidMap_get_def)
  then have "Collection_add gen (?w, c) (Single (Some r')) = ((?w, c), None)"
    by (simp add: add_single)
  moreover have "heap ?w r = \<lparr>uuid = Some u, updated = Some (Date now), removed = Some True, attrs = []\<rparr>"
    using assms(3) by (simp add: delete_props_def)
  ultimately show ?thesis by (simp add: rm)
qed

theorem tombstone_not_restored_witness:
  "0 \<in> set (records example_coll) \<and> uuidMap example_coll ''a'' = Some 0
   \<and> uuid (heap example_world 2) = Some ''a'' \<and> updated (heap example_world 2) = Some (Date 5)
   \<and> Collection_add example_gen (Collection_remove 30 (example_world, example_coll) 0) (Single (Some 2)) =
        (Collection_remove 30 (example_world, example_coll) 0, None)
   \<and> updated (heap example_world 5) = Some (Str ''1970-01-01T00:00:00.020Z'')
   \<and> Collection_add example_gen (Collection_remove 30 (example_world, example_coll) 0) (Single (Some 5)) =
        (Collection_remove 30 (example_world, example_coll) 0, None)
   \<and> heap (fst (Collection_remove 30 (example_world, example_coll) 0)) 0 =
        \<lparr>uuid = Some ''a'', updated = Some (Date 30), removed = Some True, attrs = []\<rparr>"
  using tombstone_not_restored [of 0 example_coll "''a''" example_world 2 30 example_gen]
    tombstone_not_restored [of 0 example_coll "''a''" example_world 5 30 example_gen]
  by (simp add: example_defs)

section \<open>A failing add\<close>

text \<open>
  C7 at an input where the code departs from it. The default source holds, for the
  example collection and encrypted with its password, the array of record \<open>4\<close> (uuid
  \<open>b\<close>) and \<open>null\<close>. Fetching it fails: \<open>coll.add\<close> raises a TypeError at the second
  element, which goes to \<open>fail\<close>. The record sequence is as before, but the uuid index
  is not: it has gained an entry for \<open>b\<close>, whose record (the new object \<open>8\<close>) is not in
  the sequence. The same happens when the array of record \<open>4\<close> and \<open>null\<close> is added
  directly.
\<close>

theorem failed_add_leaves_index_entry:
  "snd (Store_fetch example_env (example_world, example_damaged, example_coll)
          \<lparr>opt_password = None, opt_source = None\<rparr>) = Inl (Thrown TypeError)
   \<and> records (snd (snd (fst (Store_fetch example_env (example_world, example_damaged, example_coll)
          \<lparr>opt_password = None, opt_source = None\<rparr>)))) = [0]
   \<and> uuidMap (snd (snd (fst (Store_fetch example_env (example_world, example_damaged, example_coll)
          \<lparr>opt_password = None, opt_source = None\<rparr>)))) ''b'' = Some 8
   \<and> records example_coll = [0]
   \<and> uuidMap example_coll ''b'' = None
   \<and> Collection_add example_gen (example_world, example_coll) (Array [Some 4, None]) =
        ((example_world, example_coll\<lparr>uuidMap := [''a'' \<mapsto> 0, ''b'' \<mapsto> 4]\<rparr>), Some TypeError)"
  by (simp add: run_defs example_defs example_damaged_def)

section \<open>Fetching\<close>

text \<open>
  C10. \<open>Store.fetch\<close> stores the password it is called with on the store when the call
  is made, before the source has answered, and nothing that happens afterwards changes
  it: a fetch called with the password \<open>p\<close> leaves \<open>p\<close> as the store's password,
  whether it succeeds or fails, for whatever reason. A fetch called without a password
  leaves the store's password as it was.
\<close>

theorem fetch_caches_password:
  "password (store (fetch_begin c \<lparr>opt_password = Some p, opt_source = s\<rparr>)) = Some p
   \<and> password (store (snd (snd (fst (Store_fetch env (w, io, c) \<lparr>opt_password = Some p, opt_source = s\<rparr>)))))
       = Some p
   \<and> password (store (snd (snd (fst (Store_fetch env (w, io, c) \<lparr>opt_password = None, opt_source = s\<rparr>)))))
       = password (store c)"
proof -
  have "password (store (snd (snd (fst (Store_fetch env (w, io, c) opts))))) =
          password (store (fetch_begin c opts))" for opts
  proof -
    obtain w' io' c' out where r: "Store_fetch env (w, io, c) opts = ((w', io', c'), out)"
      by (metis prod_cases3 surj_pair)
    from Store_fetch_store [OF r] show ?thesis by (simp add: r)
  qed
  then show ?thesis by (simp add: fetch_begin_def resolve_password_def)
qed

theorem fetch_caches_password_witness:
  "password (store example_coll) = Some ''pw''
   \<and> snd (Store_fetch example_env (example_world, example_remote, example_coll)
            \<lparr>opt_password = Some ''guess'', opt_source = Some 1\<rparr>) = Inl (Thrown DecryptError)
   \<and> password (store (snd (snd (fst (Store_fetch example_env (example_world, example_remote, example_coll)
            \<lparr>opt_password = Some ''guess'', opt_source = Some 1\<rparr>))))) = Some ''guess''"
  using fetch_caches_password [of example_coll "''guess''" "Some 1" example_env example_world example_remote]
  by (simp add: run_defs example_defs)

text \<open>
  C8. The codec rejects every password other than the one a blob was encrypted with. A
  source holds, under the collection's key, a blob encrypted with password \<open>q\<close>. Then a
  fetch with another password \<open>p\<close> fails with the codec's decryption error, and no record
  is merged: the object store, the record sequence and the uuid index are unchanged.
\<close>

theorem fetch_wrong_password:
  assumes auth: "\<forall>p q x. p \<noteq> q \<longrightarrow> pwdDecrypt env p (pwdEncrypt env q x) = None"
    and up: "reachable (sources io s)"
    and blob: "contents (sources io s) (getKey c) = Some (pwdEncrypt env q x)"
    and src: "resolve_source (store c) (opt_source opts) = s"
    and pw: "resolve_password (store c) (opt_password opts) = p"
    and wrong: "p \<noteq> q"
  shows "Store_fetch env (w, io, c) opts =
           ((w, io\<lparr>oplog := oplog io @ [OpFetch s (getKey c)]\<rparr>, fetch_begin c opts), Inl (Thrown DecryptError))
         \<and> records (fetch_begin c opts) = records c
         \<and> uuidMap (fetch_begin c opts) = uuidMap c"
proof -
  have "pwdDecrypt env p (pwdEncrypt env q x) = None" using auth wrong by blast
  then show ?thesis
    using up blob src pw
    by (simp add: Store_fetch_def Let_def source_fetch_def fetch_callback_def fetch_begin_def)
qed

theorem fetch_wrong_password_witness:
  "Store_fetch example_env (example_world, example_remote, example_coll)
      \<lparr>opt_password = Some ''guess'', opt_source = Some 1\<rparr>
    = ((example_world,
        example_remote\<lparr>oplog := [OpFetch 1 ''coll_default'']\<rparr>,
        example_coll\<lparr>store := \<lparr>defaultSource = 0, password = Some ''guess''\<rparr>\<rparr>),
       Inl (Thrown DecryptError))"
  using fetch_wrong_password [of example_env example_remote 1 example_coll "Some ''pw''"
      "JSON_stringify iso_string [example_heap 4]"
      "\<lparr>opt_password = Some ''guess'', opt_source = Some 1\<rparr>" "Some ''guess''" example_world]
  by (simp add: example_env_def example_io_def example_remote_def example_coll_def getKey_def
      resolve_source_def resolve_password_def fetch_begin_def)

section \<open>Saving and fetching again\<close>




section \<open>Synchronising\<close>

text \<open>
  C4 at an input where the code departs from it. The remote source (source 1) has no
  data under the key of the example collection. The sync ends in \<open>fail\<close> with
  \<open>NotFound\<close> after the fetch: the only request issued is that fetch, nothing is saved
  to the local or to the remote source, and the collection is as it was.
\<close>

theorem sync_stops_at_missing_remote:
  "contents (sources example_io 1) ''coll_default'' = None
   \<and> Collection_sync example_env (example_world, example_io, example_coll) 1 =
       ((example_world, example_io\<lparr>oplog := [OpFetch 1 ''coll_default'']\<rparr>, example_coll),
        Inl (SourceFailure NotFound))"
  by (simp add: run_defs example_defs)

section \<open>Locking\<close>

text \<open>
  C2 at an input where the code departs from it. A new collection receives record \<open>0\<close>
  (uuid \<open>a\<close>) and is then locked: the record sequence is empty, but the uuid index still
  holds record \<open>0\<close> under \<open>a\<close>. Adding the newer version \<open>1\<close> of \<open>a\<close> afterwards
  changes the index only, and the record sequence stays empty. (Without \<open>lock\<close> the
  invariant is kept: \<open>new_Collection_consistent\<close>, \<open>Collection_add_consistent\<close>,
  \<open>Collection_remove_consistent\<close>, \<open>Store_fetch_consistent\<close>.)
\<close>

theorem lock_keeps_stale_index:
  "Collection_add example_gen (example_world, new_Collection [] (new_Store 0)) (Single (Some 0)) =
     ((example_world, (new_Collection [] (new_Store 0))\<lparr>records := [0], uuidMap := [''a'' \<mapsto> 0]\<rparr>), None)
   \<and> records (Collection_lock ((new_Collection [] (new_Store 0))\<lparr>records := [0], uuidMap := [''a'' \<mapsto> 0]\<rparr>)) = []
   \<and> uuidMap (Collection_lock ((new_Collection [] (new_Store 0))\<lparr>records := [0], uuidMap := [''a'' \<mapsto> 0]\<rparr>)) ''a'' = Some 0
   \<and> Collection_add example_gen
        (example_world, Collection_lock ((new_Collection [] (new_Store 0))\<lparr>records := [0], uuidMap := [''a'' \<mapsto> 0]\<rparr>))
        (Single (Some 1)) =
       ((example_world,
         (Collection_lock ((new_Collection [] (new_Store 0))\<lparr>records := [0], uuidMap := [''a'' \<mapsto> 0]\<rparr>))
           \<lparr>uuidMap := [''a'' \<mapsto> 1]\<rparr>), None)
   \<and> records ((Collection_lock ((new_Collection [] (new_Store 0))\<lparr>records := [0], uuidMap := [''a'' \<mapsto> 0]\<rparr>))
                 \<lparr>uuidMap := [''a'' \<mapsto> 1]\<rparr>) = []"
  by (simp add: Collection_lock_def new_Collection_def new_Store_def run_defs example_defs)

end
